theory Spec2Isabelle
  imports Complex_Main "HOL-Library.AList"
begin

section \<open>Data model of the particle morpher\<close>

text \<open>
  The embedding follows \<^verbatim>\<open>src/main.ts\<close> (class \<^verbatim>\<open>ParticleMorpher\<close>),
  \<^verbatim>\<open>src/managers/UIManager.ts\<close> and the vertex shader in \<^verbatim>\<open>shaders.ts\<close>.

  Numbers: JavaScript numbers and GLSL floats are idealised as \<^typ>\<open>real\<close>; the rounding of
  a \<^verbatim>\<open>Float32Array\<close> store is not modelled. \<^verbatim>\<open>particleCount\<close> is a natural
  number (it is only ever the constant of \<^verbatim>\<open>DEFAULT_SETTINGS\<close>). Of
  \<^verbatim>\<open>ParticleSettings\<close> the fields \<^verbatim>\<open>particleSize\<close>, \<^verbatim>\<open>autoRotate\<close> and
  \<^verbatim>\<open>currentColor\<close>, which only the renderer reads, are left out.
  \<^verbatim>\<open>morphDuration\<close> is read by \<^verbatim>\<open>morphTo\<close> and written nowhere (no slider, no
  assignment): it is the constant 2.5 of \<^verbatim>\<open>DEFAULT_SETTINGS\<close>, so that the duration
  \<^verbatim>\<open>morphDuration / animationSpeed\<close> of a tween is never zero.

  \<^verbatim>\<open>Math.random()\<close> is the global generator: the state carries the sequence of draws
  still to come (\<open>mathRandom s k\<close> is the \<open>k\<close>-th next draw), and every call consumes one.

  \<^verbatim>\<open>performance.now()\<close> is an input of the event that reads it.
\<close>

type_synonym Float32Array = "real list"

record ParticleSettings =
  particleCount :: nat
  animationSpeed :: real
  autoMorph :: bool
  autoMorphDuration :: real
  interactionRadius :: real
  interactionStrength :: real

definition DEFAULT_SETTINGS :: ParticleSettings where
  "DEFAULT_SETTINGS =
     \<lparr>particleCount = 15000, animationSpeed = 1, autoMorph = True,
      autoMorphDuration = 5000, interactionRadius = 3.0, interactionStrength = 10.0\<rparr>"

definition morphDuration :: real where
  "morphDuration = 2.5"

text \<open>
  \<^verbatim>\<open>THREE.Points\<close>: only the two geometry attributes the program writes are kept, the
  \<^verbatim>\<open>position\<close> array (the particle buffer) and the per-particle \<^verbatim>\<open>aRandom\<close>.
\<close>

record Points =
  position :: Float32Array
  aRandom :: Float32Array

text \<open>
  What \<^verbatim>\<open>this.models[shape]\<close> can evaluate to, apart from \<^verbatim>\<open>undefined\<close>: a registered
  cloud, or, for a name that \<^verbatim>\<open>Object.prototype\<close> defines, the inherited function or
  object, which is truthy like a cloud.
\<close>

datatype jsValue = TypedArray Float32Array | Inherited

text \<open>
  A tween created by \<^verbatim>\<open>gsap.to(currentPositions, {duration, endArray, ease, onUpdate,
  onComplete})\<close>. \<open>shape\<close> is the variable captured by the \<^verbatim>\<open>onComplete\<close> closure,
  \<open>endArray\<close> the value passed under that name, \<open>startTime\<close> the engine's time at
  creation. \<open>startArray\<close> holds the values the tween starts from: the engine reads them
  from the target array when the tween renders for the first time, and it is \<open>None\<close>
  until then. \<open>duration\<close> is \<open>None\<close> when \<^verbatim>\<open>morphDuration / animationSpeed\<close> is a
  division by zero, which gives \<^verbatim>\<open>Infinity\<close>: such a tween never completes.
\<close>

record Tween =
  shape :: string
  startArray :: "Float32Array option"
  endArray :: jsValue
  startTime :: real
  duration :: "real option"

text \<open>
  The fields of \<^verbatim>\<open>ParticleMorpher\<close> that the morph state machine and the scheduler use,
  and the state of the two external collaborators the code calls into: the animation
  engine (its active tweens, in creation order, and its clock in seconds) and the random
  generator. \<open>models\<close> is the object \<^verbatim>\<open>{ [key: string]: Float32Array }\<close> as an
  association list in insertion order, which is the order of \<^verbatim>\<open>Object.keys\<close> for the
  keys the program registers (none of them is an integer index).
\<close>

record ParticleMorpher =
  settings :: ParticleSettings
  particles :: "Points option"
  models :: "(string \<times> Float32Array) list"
  currentShape :: string
  isTransitioning :: bool
  lastMorphTime :: real
  tweens :: "Tween list"
  gsapTime :: real
  mathRandom :: "nat \<Rightarrow> real"

section \<open>Random point clouds\<close>

text \<open>
  The loop shared by \<^verbatim>\<open>setupParticles\<close> and \<^verbatim>\<open>getExplodePositions\<close>:
  \<^verbatim>\<open>for (i = 0; i < particleCount; i++) { positions[i*3] = (Math.random() - 0.5) * 500;
  positions[i*3+1] = ...; positions[i*3+2] = ...; }\<close>. One iteration writes three
  consecutive entries from three consecutive draws.
\<close>

fun randomCube :: "nat \<Rightarrow> (nat \<Rightarrow> real) \<Rightarrow> Float32Array" where
  "randomCube 0 r = []"
| "randomCube (Suc n) r =
     (r 0 - 0.5) * 500 # (r 1 - 0.5) * 500 # (r 2 - 0.5) * 500 # randomCube n (\<lambda>k. r (k + 3))"

definition drawn :: "nat \<Rightarrow> ParticleMorpher \<Rightarrow> ParticleMorpher" where
  \<comment> \<open>the generator after \<open>n\<close> calls of \<^verbatim>\<open>Math.random()\<close>\<close>
  "drawn n s = s\<lparr>mathRandom := (\<lambda>k. mathRandom s (k + n))\<rparr>"

definition getExplodePositions :: "ParticleMorpher \<Rightarrow> Float32Array \<times> ParticleMorpher" where
  "getExplodePositions s =
     (let n = particleCount (settings s)
      in (randomCube n (mathRandom s), drawn (3 * n) s))"

definition setupParticles :: "ParticleMorpher \<Rightarrow> ParticleMorpher" where
  "setupParticles s =
     (let n = particleCount (settings s);
          positions = randomCube n (mathRandom s);
          randoms = map (\<lambda>i. mathRandom s (3 * n + i)) [0..<n]
      in (drawn (4 * n) s)\<lparr>particles := Some \<lparr>position = positions, aRandom = randoms\<rparr>\<rparr>)"

section \<open>The animation engine\<close>

text \<open>
  GSAP is an external library. Its documented behaviour, as far as this program relies on
  it: \<^verbatim>\<open>gsap.to\<close> registers a new tween and returns; the default \<^verbatim>\<open>overwrite\<close> mode
  is \<^verbatim>\<open>false\<close>, so tweens already running on the same target keep running (the program
  passes no \<^verbatim>\<open>overwrite\<close> option and never kills a tween). On every tick of the engine
  each active tween, in creation order, renders: at its first render it reads its start
  values from the target array as the tweens before it have left it in this tick; it
  writes \<open>start + (end - start) * ratio\<close> to every index of its \<^verbatim>\<open>endArray\<close>, where
  \<open>ratio\<close> is the eased progress; when the elapsed time reaches the duration the ratio is
  1, \<^verbatim>\<open>onComplete\<close> runs once, and the tween is gone. A negative duration (a negative
  \<^verbatim>\<open>animationSpeed\<close>) is reached at the first render. The easing curve
  (\<^verbatim>\<open>"expo.inOut"\<close>) is a parameter \<open>ease\<close> of the model. What the engine writes for
  an \<^verbatim>\<open>endArray\<close> that is no array (an inherited function or object) is not known: in
  the model such a tween writes nothing, and it completes like any other.
\<close>

definition tweenDuration :: "ParticleSettings \<Rightarrow> real option" where
  \<comment> \<open>\<^verbatim>\<open>this.settings.morphDuration / this.settings.animationSpeed\<close>\<close>
  "tweenDuration st =
     (if animationSpeed st = 0 then None else Some (morphDuration / animationSpeed st))"

definition tweenDone :: "real \<Rightarrow> Tween \<Rightarrow> bool" where
  "tweenDone t tw = (case duration tw of None \<Rightarrow> False | Some d \<Rightarrow> d \<le> t - startTime tw)"

definition tweenRatio :: "(real \<Rightarrow> real) \<Rightarrow> real \<Rightarrow> Tween \<Rightarrow> real" where
  "tweenRatio ease t tw =
     (if tweenDone t tw then 1
      else case duration tw of
             None \<Rightarrow> ease 0
           | Some d \<Rightarrow> ease (max 0 ((t - startTime tw) / d)))"

definition interpolate :: "real \<Rightarrow> Float32Array \<Rightarrow> Float32Array \<Rightarrow> Float32Array" where
  "interpolate ratio start end = map2 (\<lambda>a b. a + (b - a) * ratio) start end"

definition writeArray :: "Float32Array \<Rightarrow> Float32Array \<Rightarrow> Float32Array" where
  \<comment> \<open>in-place writes of \<open>vals\<close> at indices \<open>0, 1, ...\<close>; a typed array ignores writes past its end\<close>
  "writeArray vals buf = take (length buf) vals @ drop (length vals) buf"

definition onComplete :: "string \<Rightarrow> ParticleMorpher \<Rightarrow> ParticleMorpher" where
  \<comment> \<open>\<^verbatim>\<open>this.isTransitioning = false; this.currentShape = shape;\<close> (the rest is console and DOM)\<close>
  "onComplete shp s = s\<lparr>isTransitioning := False, currentShape := shp\<rparr>"

definition renderTween :: "(real \<Rightarrow> real) \<Rightarrow> real \<Rightarrow> ParticleMorpher \<Rightarrow> Tween \<Rightarrow> ParticleMorpher" where
  "renderTween ease t s tw =
     (let buf = (case particles s of None \<Rightarrow> [] | Some p \<Rightarrow> position p);
          start = (case startArray tw of None \<Rightarrow> buf | Some a \<Rightarrow> a);
          vals = (case endArray tw of
                    TypedArray target \<Rightarrow> interpolate (tweenRatio ease t tw) start target
                  | Inherited \<Rightarrow> []);
          s' = s\<lparr>particles :=
                   map_option (\<lambda>p. p\<lparr>position := writeArray vals (position p)\<rparr>) (particles s)\<rparr>
      in if tweenDone t tw then onComplete (shape tw) s'
         else s'\<lparr>tweens := tweens s' @ [tw\<lparr>startArray := Some start\<rparr>]\<rparr>)"

definition gsapTick :: "(real \<Rightarrow> real) \<Rightarrow> real \<Rightarrow> ParticleMorpher \<Rightarrow> ParticleMorpher" where
  "gsapTick ease t s = foldl (renderTween ease t) (s\<lparr>tweens := [], gsapTime := t\<rparr>) (tweens s)"

section \<open>The morph controller\<close>

text \<open>
  \<^verbatim>\<open>morphTo\<close> (main.ts, lines 136 to 167). The four exits of the source are the four
  branches: the guard on \<^verbatim>\<open>isTransitioning\<close>, the guard on \<^verbatim>\<open>this.particles\<close>, the
  missing target (\<^verbatim>\<open>!targetPositions\<close>: an absent key gives \<^verbatim>\<open>undefined\<close>; a typed
  array, also an empty one, is an object and so truthy), and the call of \<^verbatim>\<open>gsap.to\<close>.
  \<open>modelOf\<close> is the property read \<^verbatim>\<open>this.models[shape]\<close> on the plain object
  \<^verbatim>\<open>models\<close>: an own key first, then the properties of \<^verbatim>\<open>Object.prototype\<close>.
\<close>

definition objectPrototypeNames :: "string list" where
  "objectPrototypeNames =
     [''constructor'', ''__defineGetter__'', ''__defineSetter__'', ''hasOwnProperty'',
      ''__lookupGetter__'', ''__lookupSetter__'', ''isPrototypeOf'', ''propertyIsEnumerable'',
      ''toString'', ''valueOf'', ''__proto__'', ''toLocaleString'']"

definition modelOf :: "(string \<times> Float32Array) list \<Rightarrow> string \<Rightarrow> jsValue option" where
  "modelOf m shp =
     (case map_of m shp of
        Some cloud \<Rightarrow> Some (TypedArray cloud)
      | None \<Rightarrow> if shp \<in> set objectPrototypeNames then Some Inherited else None)"

definition morphTo :: "string \<Rightarrow> ParticleMorpher \<Rightarrow> ParticleMorpher" where
  "morphTo shp s =
     (if isTransitioning s \<and> shp \<noteq> ''explode'' then s
      else case particles s of
        None \<Rightarrow> s
      | Some pts \<Rightarrow>
          (let s1 = s\<lparr>isTransitioning := True\<rparr>;
               (targetPositions, s2) =
                  (if shp = ''explode''
                   then (let (cloud, s') = getExplodePositions s1 in (Some (TypedArray cloud), s'))
                   else (modelOf (models s1) shp, s1))
           in case targetPositions of
                None \<Rightarrow> s2\<lparr>isTransitioning := False\<rparr>
              | Some target \<Rightarrow>
                  s2\<lparr>tweens := tweens s2 @
                       [\<lparr>shape = shp, startArray = None, endArray = target,
                         startTime = gsapTime s2, duration = tweenDuration (settings s2)\<rparr>]\<rparr>))"

section \<open>The auto-morph scheduler\<close>

fun indexOf :: "'a list \<Rightarrow> 'a \<Rightarrow> int" where
  \<comment> \<open>\<^verbatim>\<open>Array.prototype.indexOf\<close>: the first index holding the value, \<open>-1\<close> when there is none\<close>
  "indexOf [] x = - 1"
| "indexOf (y # ys) x =
     (if y = x then 0 else (let r = indexOf ys x in if r < 0 then - 1 else r + 1))"

definition handleAutoMorph :: "real \<Rightarrow> ParticleMorpher \<Rightarrow> ParticleMorpher" where
  "handleAutoMorph now s =
     (if \<not> autoMorph (settings s) \<or> isTransitioning s then s
      else if now - lastMorphTime s > autoMorphDuration (settings s) then
        (let morphKeys = map fst (models s)
         in if length morphKeys > 0 then
              (let currentIndex = indexOf morphKeys (currentShape s);
                   nextIndex = (currentIndex + 1) mod int (length morphKeys)
               in (morphTo (morphKeys ! nat nextIndex) s)\<lparr>lastMorphTime := now\<rparr>)
            else s)
      else s)"

definition updateStats :: "ParticleMorpher \<Rightarrow> ParticleMorpher" where
  \<comment> \<open>the frame counter only touches the DOM, but its \<^verbatim>\<open>Math.random() > 0.9\<close> consumes a draw\<close>
  "updateStats s = drawn 1 s"

definition animate :: "real \<Rightarrow> ParticleMorpher \<Rightarrow> ParticleMorpher" where
  \<comment> \<open>rotation, ray casting, the shader uniforms and rendering touch none of the fields kept here\<close>
  "animate now s = handleAutoMorph now (updateStats s)"

section \<open>Start-up and events\<close>

definition newParticleMorpher :: "(nat \<Rightarrow> real) \<Rightarrow> ParticleMorpher" where
  \<comment> \<open>the field initialisers and the constructor\<close>
  "newParticleMorpher r =
     \<lparr>settings = DEFAULT_SETTINGS, particles = None, models = [], currentShape = ''queen'',
      isTransitioning = False, lastMorphTime = 0, tweens = [], gsapTime = 0, mathRandom = r\<rparr>"

definition loadModels :: "Float32Array option \<Rightarrow> Float32Array option \<Rightarrow> ParticleMorpher \<Rightarrow> ParticleMorpher" where
  \<comment> \<open>the two results of \<^verbatim>\<open>ModelLoader.load\<close> (\<^verbatim>\<open>null\<close> on failure) are inputs\<close>
  "loadModels queenPoints pawnPoints s =
     (let m1 = (case queenPoints of None \<Rightarrow> models s
                | Some q \<Rightarrow> AList.update ''queen'' q (models s));
          m2 = (case pawnPoints of None \<Rightarrow> m1 | Some p \<Rightarrow> AList.update ''pawn'' p m1)
      in s\<lparr>models := m2\<rparr>)"

definition init :: "Float32Array option \<Rightarrow> Float32Array option \<Rightarrow> ParticleMorpher \<Rightarrow> ParticleMorpher" where
  "init queenPoints pawnPoints s =
     morphTo ''queen'' (loadModels queenPoints pawnPoints (setupParticles s))"

text \<open>
  What can happen after start-up, one event per callback of the single-threaded event
  loop: a call of the public \<^verbatim>\<open>morphTo\<close> (the shape buttons), a tick of the animation
  engine at engine time \<open>t\<close>, an animation frame (\<^verbatim>\<open>animate\<close>) reading
  \<^verbatim>\<open>performance.now()\<close>, the auto-morph checkbox, and the speed slider. The engine's
  clock (seconds) and \<^verbatim>\<open>performance.now()\<close> (milliseconds) are separate inputs.
\<close>

datatype event =
    Morph string
  | GsapTick real
  | Frame real
  | ToggleAutoMorph bool real
  | SetSpeed real

definition autoMorphReset :: "real \<Rightarrow> ParticleMorpher \<Rightarrow> ParticleMorpher" where
  \<comment> \<open>the \<^verbatim>\<open>"setting-update"\<close> listener of \<^verbatim>\<open>setupEvents\<close>, case \<^verbatim>\<open>"autoMorphReset"\<close>\<close>
  "autoMorphReset now s =
     (case particles s of None \<Rightarrow> s | Some _ \<Rightarrow> s\<lparr>lastMorphTime := now\<rparr>)"

definition toggleAutoMorph :: "bool \<Rightarrow> real \<Rightarrow> ParticleMorpher \<Rightarrow> ParticleMorpher" where
  \<comment> \<open>the \<^verbatim>\<open>change\<close> handler of the checkbox in \<^verbatim>\<open>UIManager.setupToggles\<close>\<close>
  "toggleAutoMorph checked now s =
     (let s1 = s\<lparr>settings := (settings s)\<lparr>autoMorph := checked\<rparr>\<rparr>
      in if autoMorph (settings s1) then autoMorphReset now s1 else s1)"

fun step :: "(real \<Rightarrow> real) \<Rightarrow> ParticleMorpher \<Rightarrow> event \<Rightarrow> ParticleMorpher" where
  "step ease s (Morph shp) = morphTo shp s"
| "step ease s (GsapTick t) = gsapTick ease t s"
| "step ease s (Frame now) = animate now s"
| "step ease s (ToggleAutoMorph checked now) = toggleAutoMorph checked now s"
| "step ease s (SetSpeed v) = s\<lparr>settings := (settings s)\<lparr>animationSpeed := v\<rparr>\<rparr>"

definition run :: "(real \<Rightarrow> real) \<Rightarrow> event list \<Rightarrow> ParticleMorpher \<Rightarrow> ParticleMorpher" where
  "run ease evs s = foldl (step ease) s evs"

section \<open>The interaction field of the vertex shader\<close>

text \<open>
  The part of \<^verbatim>\<open>main()\<close> of the vertex shader that computes \<^verbatim>\<open>worldPosition.xyz\<close>,
  over the reals. The inputs are the attribute \<^verbatim>\<open>position\<close>, the product
  \<^verbatim>\<open>modelMatrix * vec4(pos, 1.0)\<close> (its \<open>xyz\<close>), the uniforms and \<^verbatim>\<open>aRandom\<close>.
  \<open>smoothstep\<close> is the reference formula of GLSL,
  \<^verbatim>\<open>t = clamp((x - edge0) / (edge1 - edge0), 0.0, 1.0); return t * t * (3.0 - 2.0 * t);\<close>
  which the shader calls with \<open>edge0 > edge1\<close>. Its division is the one of floating
  point: a non-zero number divided by zero is an infinity of its sign, which
  \<^verbatim>\<open>clamp\<close> brings back to a bound, and zero divided by zero is no number, after which
  nothing is known (\<open>None\<close>). \<^verbatim>\<open>normalize\<close> divides by the length, so the zero vector
  has no normalised vector (\<open>None\<close>). The GLSL built-ins \<^verbatim>\<open>distance\<close> and
  \<^verbatim>\<open>normalize\<close> are \<open>vdistance\<close> and \<open>vnormalize\<close>, the local \<^verbatim>\<open>dist\<close> is \<open>dst\<close>.
\<close>

type_synonym vec3 = "real \<times> real \<times> real"

datatype glfloat = Finite real | PlusInfinity | MinusInfinity | NotANumber

definition fdiv :: "real \<Rightarrow> real \<Rightarrow> glfloat" where
  "fdiv a b =
     (if b \<noteq> 0 then Finite (a / b)
      else if a > 0 then PlusInfinity
      else if a < 0 then MinusInfinity
      else NotANumber)"

definition vadd :: "vec3 \<Rightarrow> vec3 \<Rightarrow> vec3" where
  "vadd a b = (case (a, b) of ((ax, ay, az), (bx, by, bz)) \<Rightarrow> (ax + bx, ay + by, az + bz))"

definition vsub :: "vec3 \<Rightarrow> vec3 \<Rightarrow> vec3" where
  "vsub a b = (case (a, b) of ((ax, ay, az), (bx, by, bz)) \<Rightarrow> (ax - bx, ay - by, az - bz))"

definition vscale :: "vec3 \<Rightarrow> real \<Rightarrow> vec3" where
  "vscale a k = (case a of (ax, ay, az) \<Rightarrow> (ax * k, ay * k, az * k))"

definition vlength :: "vec3 \<Rightarrow> real" where
  "vlength a = (case a of (ax, ay, az) \<Rightarrow> sqrt (ax * ax + ay * ay + az * az))"

definition vdistance :: "vec3 \<Rightarrow> vec3 \<Rightarrow> real" where
  "vdistance a b = vlength (vsub a b)"

definition vnormalize :: "vec3 \<Rightarrow> vec3 option" where
  "vnormalize a = (if vlength a = 0 then None else Some (vscale a (1 / vlength a)))"

definition clamp :: "glfloat \<Rightarrow> real \<Rightarrow> real \<Rightarrow> real option" where
  \<comment> \<open>\<^verbatim>\<open>min(max(x, minVal), maxVal)\<close>\<close>
  "clamp x lo hi =
     (case x of
        Finite v \<Rightarrow> Some (min (max v lo) hi)
      | PlusInfinity \<Rightarrow> Some hi
      | MinusInfinity \<Rightarrow> Some (min lo hi)
      | NotANumber \<Rightarrow> None)"

definition smoothstep :: "real \<Rightarrow> real \<Rightarrow> real \<Rightarrow> real option" where
  "smoothstep edge0 edge1 x =
     map_option (\<lambda>t. t * t * (3 - 2 * t)) (clamp (fdiv (x - edge0) (edge1 - edge0)) 0 1)"

record Uniforms =
  uMouse :: vec3
  uRadius :: real
  uStrength :: real
  uTime :: real

definition falloffAt :: "Uniforms \<Rightarrow> real \<Rightarrow> real \<Rightarrow> real option" where
  \<comment> \<open>\<^verbatim>\<open>smoothstep(uRadius * (1.2 + noise * 0.5), 0.0, dist)\<close>\<close>
  "falloffAt u noise dst = smoothstep (uRadius u * (1.2 + noise * 0.5)) 0 dst"

definition vertexWorldPosition :: "Uniforms \<Rightarrow> real \<Rightarrow> vec3 \<Rightarrow> vec3 \<Rightarrow> vec3 option" where
  "vertexWorldPosition u aRnd pos worldPosition =
     (let dst = vdistance worldPosition (uMouse u);
          slowTime = uTime u * 0.0002;
          noise = aRnd
      in case falloffAt u noise dst of
           None \<Rightarrow> None
         | Some falloff \<Rightarrow>
             if falloff > 0 then
               (let randomDir =
                      (case pos of (px, py, pz) \<Rightarrow>
                         (sin (px * 0.15 + slowTime + noise * 6.28),
                          cos (py * 0.15 + slowTime * 1.1 + noise * 6.28),
                          sin (pz * 0.15 + slowTime * 1.2 + noise * 6.28)))
                in case vnormalize (vsub worldPosition (uMouse u)) of
                     None \<Rightarrow> None
                   | Some repelDir \<Rightarrow>
                       (case vnormalize (vadd (vscale repelDir 0.3) (vscale randomDir 0.7)) of
                          None \<Rightarrow> None
                        | Some finalDir \<Rightarrow>
                            (let displacement =
                                   falloff * uStrength u *
                                   (0.8 + sin (uTime u * 0.001 + noise * 6.28) * 0.2)
                             in Some (vadd worldPosition (vscale finalDir displacement)))))
             else Some worldPosition)"

definition displacementOf :: "Uniforms \<Rightarrow> real \<Rightarrow> vec3 \<Rightarrow> vec3 \<Rightarrow> vec3 option" where
  \<comment> \<open>what the interaction field adds to the transformed position\<close>
  "displacementOf u aRnd pos worldPosition =
     map_option (\<lambda>w. vsub w worldPosition) (vertexWorldPosition u aRnd pos worldPosition)"

section \<open>Predicates on runs and sample inputs\<close>

fun calmEvent :: "real \<Rightarrow> event \<Rightarrow> bool" where
  \<comment> \<open>an event that is neither an explode request nor an engine tick at or after \<open>deadline\<close>\<close>
  "calmEvent deadline (Morph shp) = (shp \<noteq> ''explode'')"
| "calmEvent deadline (GsapTick t) = (t < deadline)"
| "calmEvent deadline ev = True"

definition sampleDraws :: "nat \<Rightarrow> real" where
  "sampleDraws k = real (k mod 5) / 5"

definition linearEase :: "real \<Rightarrow> real" where
  "linearEase p = p"

definition smallMorpher :: "nat \<Rightarrow> ParticleMorpher" where
  \<comment> \<open>a freshly constructed morpher with \<open>n\<close> particles instead of 15000\<close>
  "smallMorpher n = (newParticleMorpher sampleDraws)\<lparr>settings := DEFAULT_SETTINGS\<lparr>particleCount := n\<rparr>\<rparr>"

definition underWay :: "string \<Rightarrow> Float32Array \<Rightarrow> real \<Rightarrow> real \<Rightarrow> ParticleMorpher \<Rightarrow> bool" where
  \<comment> \<open>the flag is set and one tween, towards \<open>cloud\<close>, is under way on a buffer of its size\<close>
  "underWay shp cloud t0 d s =
     (isTransitioning s \<and>
      (case tweens s of
         [tw] \<Rightarrow> shape tw = shp \<and> endArray tw = TypedArray cloud \<and> startTime tw = t0 \<and>
                 duration tw = Some d \<and>
                 (case startArray tw of None \<Rightarrow> True | Some a \<Rightarrow> length a = length cloud)
       | _ \<Rightarrow> False) \<and>
      (case particles s of None \<Rightarrow> False | Some p \<Rightarrow> length (position p) = length cloud))"

definition loadedMorpher :: ParticleMorpher where
  \<comment> \<open>one particle, both models loaded, before \<^verbatim>\<open>init\<close> requests the queen\<close>
  "loadedMorpher = loadModels (Some [1, 2, 3]) (Some [4, 5, 6]) (setupParticles (smallMorpher 1))"

definition bootedMorpher :: ParticleMorpher where
  \<comment> \<open>the same morpher after \<^verbatim>\<open>init\<close>, its first tween towards the queen under way\<close>
  "bootedMorpher = init (Some [1, 2, 3]) (Some [4, 5, 6]) (smallMorpher 1)"


definition staleFlagMorpher :: ParticleMorpher where
  \<comment> \<open>explode requested one second into the first tween; the first tween has completed\<close>
  "staleFlagMorpher = run linearEase [GsapTick 1, Morph ''explode'', GsapTick 3] bootedMorpher"

definition explodeFree :: "ParticleMorpher \<Rightarrow> bool" where
  \<comment> \<open>\<open>explode\<close> is neither the current shape, nor the target of a running tween, nor a key of \<open>models\<close>\<close>
  "explodeFree s =
     (currentShape s \<noteq> ''explode'' \<and> list_all (\<lambda>tw. shape tw \<noteq> ''explode'') (tweens s) \<and>
      list_all (\<lambda>kv. fst kv \<noteq> ''explode'') (models s))"

definition singleOwner :: "ParticleMorpher \<Rightarrow> bool" where
  \<comment> \<open>the flag is set exactly while a tween is active, and at most one tween is\<close>
  "singleOwner s = ((isTransitioning s \<longleftrightarrow> tweens s \<noteq> []) \<and> length (tweens s) \<le> 1)"

fun explodeMidway :: "(real \<Rightarrow> real) \<Rightarrow> event list \<Rightarrow> ParticleMorpher \<Rightarrow> bool" where
  \<comment> \<open>some event of the run is an explode request made while \<open>isTransitioning\<close> holds\<close>
  "explodeMidway ease [] s = False"
| "explodeMidway ease (ev # evs) s =
     ((ev = Morph ''explode'' \<and> isTransitioning s) \<or> explodeMidway ease evs (step ease s ev))"

definition autoMorphFires :: "real \<Rightarrow> ParticleMorpher \<Rightarrow> bool" where
  \<comment> \<open>the conditions under which \<^verbatim>\<open>handleAutoMorph\<close> reaches its call of \<^verbatim>\<open>morphTo\<close>\<close>
  "autoMorphFires now s =
     (autoMorph (settings s) \<and> \<not> isTransitioning s \<and>
      now - lastMorphTime s > autoMorphDuration (settings s) \<and> models s \<noteq> [])"

definition uniformsWithRadius :: "real \<Rightarrow> Uniforms" where
  \<comment> \<open>the pointer at \<open>(5, 0, 0)\<close>, the default strength, time 0\<close>
  "uniformsWithRadius r = \<lparr>uMouse = (5, 0, 0), uRadius = r, uStrength = 10, uTime = 0\<rparr>"

section \<open>Facts about the random clouds\<close>

lemma length_randomCube: "length (randomCube n r) = 3 * n"
  by (induction n arbitrary: r) simp_all

lemma nth_randomCube: "i < 3 * n \<Longrightarrow> randomCube n r ! i = (r i - 0.5) * 500"
proof (induction n arbitrary: r i)
  case 0
  then show ?case by simp
next
  case (Suc n)
  show ?case
  proof (cases "i < 3")
    case True
    then have "i = 0 \<or> i = 1 \<or> i = 2" by arith
    then show ?thesis by auto
  next
    case False
    then obtain j where j: "i = j + 3" using le_Suc_ex [of 3 i] by (auto simp: add.commute)
    then have "j < 3 * n" using Suc.prems by arith
    from Suc.IH [OF this, of "\<lambda>k. r (k + 3)"]
    show ?thesis by (simp add: j numeral_3_eq_3)
  qed
qed

lemma sampleDraws_range: "0 \<le> sampleDraws k \<and> sampleDraws k < 1"
  by (simp add: sampleDraws_def)

section \<open>Facts about requests and ticks\<close>

lemma morphTo_dropped: "isTransitioning s \<Longrightarrow> shp \<noteq> ''explode'' \<Longrightarrow> morphTo shp s = s"
  by (simp add: morphTo_def)

lemma morphTo_missing:
  "shp \<noteq> ''explode'' \<Longrightarrow> modelOf (models s) shp = None \<Longrightarrow> morphTo shp s = s"
  by (simp add: morphTo_def split: option.splits)

lemma modelOf_registered: "map_of m shp = Some cloud \<Longrightarrow> modelOf m shp = Some (TypedArray cloud)"
  by (simp add: modelOf_def)


lemma morphTo_registered:
  assumes "\<not> isTransitioning s" "shp \<noteq> ''explode''" "particles s = Some pts"
    and "map_of (models s) shp = Some cloud"
  shows "morphTo shp s =
           s\<lparr>isTransitioning := True,
             tweens := tweens s @
               [\<lparr>shape = shp, startArray = None, endArray = TypedArray cloud,
                 startTime = gsapTime s, duration = tweenDuration (settings s)\<rparr>]\<rparr>"
  using assms by (simp add: morphTo_def modelOf_registered)

lemma morphTo_explode:
  assumes "particles s = Some pts"
  shows "morphTo ''explode'' s =
           (drawn (3 * particleCount (settings s)) s)
             \<lparr>isTransitioning := True,
              tweens := tweens s @
               [\<lparr>shape = ''explode'', startArray = None,
                 endArray = TypedArray (randomCube (particleCount (settings s)) (mathRandom s)),
                 startTime = gsapTime s, duration = tweenDuration (settings s)\<rparr>]\<rparr>"
  using assms by (simp add: morphTo_def getExplodePositions_def drawn_def Let_def)

lemma length_writeArray: "length (writeArray vals buf) = length buf"
  by (simp add: writeArray_def min_def)

lemma writeArray_full: "length vals = length buf \<Longrightarrow> writeArray vals buf = vals"
  by (simp add: writeArray_def)

lemma interpolate_one: "length a = length b \<Longrightarrow> interpolate 1 a b = b"
  by (induction a b rule: list_induct2) (simp_all add: interpolate_def)

lemma loadedMorpher_eq:
  "loadedMorpher =
     \<lparr>settings = DEFAULT_SETTINGS\<lparr>particleCount := 1\<rparr>,
      particles = Some \<lparr>position = [- 250, - 150, - 50], aRandom = [3 / 5]\<rparr>,
      models = [(''queen'', [1, 2, 3]), (''pawn'', [4, 5, 6])],
      currentShape = ''queen'', isTransitioning = False, lastMorphTime = 0, tweens = [],
      gsapTime = 0, mathRandom = (\<lambda>k. sampleDraws (k + 4))\<rparr>"
  by (simp add: loadedMorpher_def loadModels_def setupParticles_def smallMorpher_def
      newParticleMorpher_def drawn_def sampleDraws_def Let_def)

lemmas run_simps =
  run_def morphTo_def modelOf_def objectPrototypeNames_def getExplodePositions_def drawn_def
  gsapTick_def renderTween_def onComplete_def tweenDone_def tweenRatio_def tweenDuration_def
  morphDuration_def DEFAULT_SETTINGS_def interpolate_def writeArray_def Let_def linearEase_def
  sampleDraws_def animate_def updateStats_def handleAutoMorph_def toggleAutoMorph_def
  autoMorphReset_def

lemma bootedMorpher_eq: "bootedMorpher = morphTo ''queen'' loadedMorpher"
  by (simp add: bootedMorpher_def init_def loadedMorpher_def)

lemma bootedMorpher_record:
  "bootedMorpher =
     \<lparr>settings = DEFAULT_SETTINGS\<lparr>particleCount := 1\<rparr>,
      particles = Some \<lparr>position = [- 250, - 150, - 50], aRandom = [3 / 5]\<rparr>,
      models = [(''queen'', [1, 2, 3]), (''pawn'', [4, 5, 6])],
      currentShape = ''queen'', isTransitioning = True, lastMorphTime = 0,
      tweens = [\<lparr>shape = ''queen'', startArray = None, endArray = TypedArray [1, 2, 3],
                 startTime = 0, duration = Some (5 / 2)\<rparr>],
      gsapTime = 0, mathRandom = (\<lambda>k. sampleDraws (k + 4))\<rparr>"
  by (simp add: bootedMorpher_eq loadedMorpher_eq morphTo_def modelOf_def tweenDuration_def
      morphDuration_def DEFAULT_SETTINGS_def)


lemma staleFlagMorpher_record:
  "staleFlagMorpher =
     \<lparr>settings = DEFAULT_SETTINGS\<lparr>particleCount := 1\<rparr>,
      particles = Some \<lparr>position = [601 / 5, - (998 / 5), - (597 / 5)], aRandom = [3 / 5]\<rparr>,
      models = [(''queen'', [1, 2, 3]), (''pawn'', [4, 5, 6])],
      currentShape = ''queen'', isTransitioning = False, lastMorphTime = 0,
      tweens = [\<lparr>shape = ''explode'', startArray = Some [1, 2, 3],
                 endArray = TypedArray [150, - 250, - 150], startTime = 1, duration = Some (5 / 2)\<rparr>],
      gsapTime = 3, mathRandom = (\<lambda>k. sampleDraws (k + 7))\<rparr>"
  by (simp add: staleFlagMorpher_def bootedMorpher_record run_simps ac_simps)


section \<open>Facts about the fields an operation leaves alone\<close>

lemma renderTween_frame:
  "settings (renderTween ease t s tw) = settings s \<and> models (renderTween ease t s tw) = models s \<and>
   lastMorphTime (renderTween ease t s tw) = lastMorphTime s \<and>
   mathRandom (renderTween ease t s tw) = mathRandom s \<and>
   gsapTime (renderTween ease t s tw) = gsapTime s"
  by (simp add: renderTween_def onComplete_def Let_def)

lemma renderTween_shapes:
  "map shape (tweens (renderTween ease t s tw)) =
     map shape (tweens s) @ (if tweenDone t tw then [] else [shape tw])"
  by (simp add: renderTween_def onComplete_def Let_def)

lemma renderTween_endArrays:
  "map endArray (tweens (renderTween ease t s tw)) =
     map endArray (tweens s) @ (if tweenDone t tw then [] else [endArray tw])"
  by (simp add: renderTween_def onComplete_def Let_def)

lemma foldl_renderTween_frame:
  "settings (foldl (renderTween ease t) s tws) = settings s \<and>
   models (foldl (renderTween ease t) s tws) = models s \<and>
   lastMorphTime (foldl (renderTween ease t) s tws) = lastMorphTime s \<and>
   mathRandom (foldl (renderTween ease t) s tws) = mathRandom s \<and>
   gsapTime (foldl (renderTween ease t) s tws) = gsapTime s"
  by (induction tws arbitrary: s) (simp_all add: renderTween_frame)

lemma foldl_renderTween_shapes:
  "map shape (tweens (foldl (renderTween ease t) s tws)) =
     map shape (tweens s) @ map shape (filter (\<lambda>tw. \<not> tweenDone t tw) tws)"
  by (induction tws arbitrary: s) (simp_all add: renderTween_shapes)

lemma foldl_renderTween_endArrays:
  "map endArray (tweens (foldl (renderTween ease t) s tws)) =
     map endArray (tweens s) @ map endArray (filter (\<lambda>tw. \<not> tweenDone t tw) tws)"
  by (induction tws arbitrary: s) (simp_all add: renderTween_endArrays)

lemma gsapTick_frame:
  "settings (gsapTick ease t s) = settings s \<and> models (gsapTick ease t s) = models s \<and>
   lastMorphTime (gsapTick ease t s) = lastMorphTime s \<and>
   mathRandom (gsapTick ease t s) = mathRandom s \<and> gsapTime (gsapTick ease t s) = t"
  by (simp add: gsapTick_def foldl_renderTween_frame)

lemma gsapTick_shapes:
  "map shape (tweens (gsapTick ease t s)) = map shape (filter (\<lambda>tw. \<not> tweenDone t tw) (tweens s))"
  by (simp add: gsapTick_def foldl_renderTween_shapes)

lemma gsapTick_endArrays:
  "map endArray (tweens (gsapTick ease t s)) =
     map endArray (filter (\<lambda>tw. \<not> tweenDone t tw) (tweens s))"
  by (simp add: gsapTick_def foldl_renderTween_endArrays)

lemma morphTo_frame:
  "models (morphTo shp s) = models s \<and> settings (morphTo shp s) = settings s \<and>
   lastMorphTime (morphTo shp s) = lastMorphTime s \<and> currentShape (morphTo shp s) = currentShape s \<and>
   particles (morphTo shp s) = particles s \<and> gsapTime (morphTo shp s) = gsapTime s"
  by (simp add: morphTo_def getExplodePositions_def drawn_def Let_def split: option.splits)

lemma morphTo_tweens_grow: "\<exists>new. tweens (morphTo shp s) = tweens s @ new"
  by (simp add: morphTo_def getExplodePositions_def drawn_def Let_def split: option.splits)

lemma animate_tweens_grow: "\<exists>new. tweens (animate now s) = tweens s @ new"
  using morphTo_tweens_grow [of _ "updateStats s"]
  by (auto simp: animate_def handleAutoMorph_def Let_def updateStats_def drawn_def)

section \<open>Facts about one tween under way\<close>

lemma underWay_step:
  assumes "underWay shp cloud t0 d s" and "calmEvent (t0 + d) ev"
  shows "underWay shp cloud t0 d (step ease s ev)"
proof (cases ev)
  case (Morph name)
  with assms show ?thesis by (simp add: underWay_def morphTo_dropped)
next
  case (GsapTick t)
  from assms obtain tw where tw: "tweens s = [tw]"
    by (auto simp: underWay_def split: list.splits)
  with assms GsapTick have "\<not> tweenDone t tw"
    by (simp add: underWay_def tweenDone_def)
  with assms GsapTick tw show ?thesis
    by (auto simp: underWay_def gsapTick_def renderTween_def Let_def length_writeArray
        split: option.splits)
next
  case (Frame now)
  with assms show ?thesis
    by (auto simp: underWay_def animate_def updateStats_def drawn_def handleAutoMorph_def)
next
  case (ToggleAutoMorph checked now)
  with assms show ?thesis
    by (auto simp: underWay_def toggleAutoMorph_def autoMorphReset_def Let_def split: option.splits)
next
  case (SetSpeed v)
  with assms show ?thesis by (auto simp: underWay_def)
qed

lemma underWay_run:
  assumes "underWay shp cloud t0 d s" and "\<forall>ev \<in> set evs. calmEvent (t0 + d) ev"
  shows "underWay shp cloud t0 d (run ease evs s)"
  using assms
proof (induction evs arbitrary: s)
  case Nil
  then show ?case by (simp add: run_def)
next
  case (Cons ev evs)
  from Cons.prems have "underWay shp cloud t0 d (step ease s ev)"
    by (intro underWay_step) simp_all
  from Cons.IH [OF this] Cons.prems show ?case by (simp add: run_def)
qed

lemma underWay_complete:
  assumes "underWay shp cloud t0 d s" and "t0 + d \<le> t"
  shows "map_option position (particles (gsapTick ease t s)) = Some cloud \<and>
         currentShape (gsapTick ease t s) = shp \<and>
         \<not> isTransitioning (gsapTick ease t s) \<and> tweens (gsapTick ease t s) = []"
proof -
  from assms obtain tw where tw: "tweens s = [tw]"
    by (auto simp: underWay_def split: list.splits)
  with assms have "tweenDone t tw"
    by (simp add: underWay_def tweenDone_def)
  with assms tw show ?thesis
    by (auto simp: underWay_def gsapTick_def renderTween_def Let_def onComplete_def tweenRatio_def
        interpolate_one writeArray_full split: option.splits)
qed

text \<open>
  What the guard of \<^verbatim>\<open>morphTo\<close> achieves while the flag is set. A request for a shape
  other than \<open>explode\<close> made while \<open>isTransitioning\<close> holds returns the state as it is.
  From an idle morpher whose buffer has the size of the registered cloud of \<open>first\<close>:
  after the request for \<open>first\<close> and any events that are neither explode requests nor an
  engine tick at or after the tween's end, the flag is still set, a request for
  \<open>second\<close> is dropped, and the tick that completes the tween leaves the buffer equal to
  the cloud of \<open>first\<close>.
\<close>

lemma flagged_request_dropped:
  assumes "\<not> isTransitioning s0" and "tweens s0 = []" and "particles s0 = Some pts"
    and "first \<noteq> ''explode''" and "map_of (models s0) first = Some cloud"
    and "length cloud = length (position pts)"
    and "tweenDuration (settings s0) = Some d"
    and "\<forall>ev \<in> set evs. calmEvent (gsapTime s0 + d) ev"
    and "second \<noteq> ''explode''"
    and "gsapTime s0 + d \<le> t"
  shows "isTransitioning (run ease evs (morphTo first s0)) \<and>
         morphTo second (run ease evs (morphTo first s0)) = run ease evs (morphTo first s0) \<and>
         map_option position
           (particles (gsapTick ease t (morphTo second (run ease evs (morphTo first s0))))) =
           Some cloud \<and>
         currentShape (gsapTick ease t (morphTo second (run ease evs (morphTo first s0)))) = first"
proof -
  have "underWay first cloud (gsapTime s0) d (morphTo first s0)"
    using assms by (simp add: morphTo_registered underWay_def)
  then have way: "underWay first cloud (gsapTime s0) d (run ease evs (morphTo first s0))"
    using assms by (intro underWay_run) simp_all
  then have busy: "isTransitioning (run ease evs (morphTo first s0))"
    by (simp add: underWay_def)
  then have drop: "morphTo second (run ease evs (morphTo first s0)) = run ease evs (morphTo first s0)"
    using assms by (simp add: morphTo_dropped)
  from underWay_complete [OF way assms(10), of ease] busy drop show ?thesis
    by simp
qed


section \<open>Facts about the scheduler and about runs\<close>

lemma indexOf_absent: "x \<notin> set xs \<Longrightarrow> indexOf xs x = - 1"
  by (induction xs) (auto simp: Let_def)

lemma indexOf_present: "x \<in> set xs \<Longrightarrow> 0 \<le> indexOf xs x \<and> indexOf xs x < int (length xs) \<and> xs ! nat (indexOf xs x) = x"
proof (induction xs)
  case Nil
  then show ?case by simp
next
  case (Cons y ys)
  show ?case
  proof (cases "y = x")
    case True
    then show ?thesis by simp
  next
    case False
    with Cons have IH: "0 \<le> indexOf ys x \<and> indexOf ys x < int (length ys) \<and> ys ! nat (indexOf ys x) = x"
      by simp
    with False show ?thesis by (simp add: Let_def nat_add_distrib)
  qed
qed

lemma nextIndex_in_range:
  assumes "ks \<noteq> []"
  shows "nat ((indexOf ks c + 1) mod int (length ks)) < length ks"
proof -
  have "0 < int (length ks)" using assms by simp
  then have "(indexOf ks c + 1) mod int (length ks) < int (length ks)"
    by (rule pos_mod_bound)
  moreover have "0 \<le> (indexOf ks c + 1) mod int (length ks)"
    using \<open>0 < int (length ks)\<close> by (rule pos_mod_sign)
  ultimately show ?thesis by linarith
qed

lemma handleAutoMorph_fires:
  assumes "autoMorph (settings s)" "\<not> isTransitioning s"
    and "now - lastMorphTime s > autoMorphDuration (settings s)" and "models s \<noteq> []"
  shows "handleAutoMorph now s =
           (morphTo (map fst (models s) !
              nat ((indexOf (map fst (models s)) (currentShape s) + 1) mod int (length (models s)))) s)
           \<lparr>lastMorphTime := now\<rparr>"
  using assms by (simp add: handleAutoMorph_def Let_def)

lemma handleAutoMorph_skips:
  assumes "\<not> (autoMorph (settings s) \<and> \<not> isTransitioning s \<and>
              now - lastMorphTime s > autoMorphDuration (settings s) \<and> models s \<noteq> [])"
  shows "handleAutoMorph now s = s"
  using assms by (auto simp: handleAutoMorph_def Let_def)


lemma foldl_renderTween_currentShape:
  "currentShape (foldl (renderTween ease t) s tws) \<in> insert (currentShape s) (shape ` set tws)"
proof (induction tws arbitrary: s)
  case Nil
  then show ?case by simp
next
  case (Cons tw tws)
  have "currentShape (renderTween ease t s tw) \<in> {currentShape s, shape tw}"
    by (simp add: renderTween_def onComplete_def Let_def)
  with Cons [of "renderTween ease t s tw"] show ?case by auto
qed

lemma step_models: "models (step ease s ev) = models s"
  by (cases ev)
     (simp_all add: morphTo_frame gsapTick_frame animate_def handleAutoMorph_def Let_def
        updateStats_def drawn_def toggleAutoMorph_def autoMorphReset_def split: option.splits)

lemma run_models: "models (run ease evs s) = models s"
  unfolding run_def by (induction evs arbitrary: s) (simp_all add: step_models)

lemma morphTo_cases:
  "morphTo shp s = s \<or>
   (\<exists>tw r. morphTo shp s = s\<lparr>isTransitioning := True, tweens := tweens s @ [tw], mathRandom := r\<rparr> \<and>
           shape tw = shp)"
proof (cases "isTransitioning s \<and> shp \<noteq> ''explode''")
  case True
  then show ?thesis by (simp add: morphTo_def)
next
  case False
  note guard = this
  show ?thesis
  proof (cases "particles s")
    case None
    with guard show ?thesis by (simp add: morphTo_def)
  next
    case (Some pts)
    show ?thesis
    proof (cases "shp = ''explode''")
      case True
      let ?tw = "\<lparr>shape = ''explode'', startArray = None,
                   endArray = TypedArray (randomCube (particleCount (settings s)) (mathRandom s)),
                   startTime = gsapTime s, duration = tweenDuration (settings s)\<rparr>"
      let ?r = "\<lambda>k. mathRandom s (k + 3 * particleCount (settings s))"
      from morphTo_explode [OF Some] True
      have "morphTo shp s = s\<lparr>isTransitioning := True, tweens := tweens s @ [?tw], mathRandom := ?r\<rparr> \<and>
            shape ?tw = shp"
        by (simp add: drawn_def)
      then show ?thesis
        by (intro disjI2 exI [of _ ?tw] exI [of _ ?r])
    next
      case False
      with guard have idle: "\<not> isTransitioning s" by simp
      show ?thesis
      proof (cases "modelOf (models s) shp")
        case None
        with False have "morphTo shp s = s" by (rule morphTo_missing)
        then show ?thesis by simp
      next
        case (Some target)
        with False idle \<open>particles s = Some pts\<close>
        have "morphTo shp s =
                s\<lparr>isTransitioning := True,
                  tweens := tweens s @
                    [\<lparr>shape = shp, startArray = None, endArray = target,
                      startTime = gsapTime s, duration = tweenDuration (settings s)\<rparr>],
                  mathRandom := mathRandom s\<rparr>"
          by (simp add: morphTo_def)
        then have "morphTo shp s =
                s\<lparr>isTransitioning := True,
                  tweens := tweens s @
                    [\<lparr>shape = shp, startArray = None, endArray = target,
                      startTime = gsapTime s, duration = tweenDuration (settings s)\<rparr>],
                  mathRandom := mathRandom s\<rparr> \<and>
              shape \<lparr>shape = shp, startArray = None, endArray = target,
                      startTime = gsapTime s, duration = tweenDuration (settings s)\<rparr> = shp"
          by simp
        then show ?thesis
          by (intro disjI2 exI [of _ "\<lparr>shape = shp, startArray = None, endArray = target,
                      startTime = gsapTime s, duration = tweenDuration (settings s)\<rparr>"]
                exI [of _ "mathRandom s"])
      qed
    qed
  qed
qed

lemma morphTo_explodeFree:
  assumes "explodeFree s" and "shp \<noteq> ''explode''"
  shows "explodeFree (morphTo shp s)"
proof -
  from morphTo_cases [of shp s] show ?thesis
  proof
    assume "morphTo shp s = s"
    with assms show ?thesis by simp
  next
    assume "\<exists>tw r. morphTo shp s = s\<lparr>isTransitioning := True, tweens := tweens s @ [tw], mathRandom := r\<rparr> \<and>
           shape tw = shp"
    then obtain tw r where
      "morphTo shp s = s\<lparr>isTransitioning := True, tweens := tweens s @ [tw], mathRandom := r\<rparr>"
      "shape tw = shp" by blast
    with assms show ?thesis by (simp add: explodeFree_def)
  qed
qed

lemma gsapTick_avoids_name:
  assumes "currentShape s \<noteq> e" and "\<forall>tw \<in> set (tweens s). shape tw \<noteq> e"
  shows "currentShape (gsapTick ease t s) \<noteq> e \<and>
         (\<forall>tw \<in> set (tweens (gsapTick ease t s)). shape tw \<noteq> e)"
proof
  have "currentShape (gsapTick ease t s) \<in> insert (currentShape s) (shape ` set (tweens s))"
    using foldl_renderTween_currentShape [of ease t "s\<lparr>tweens := [], gsapTime := t\<rparr>" "tweens s"]
    by (simp add: gsapTick_def)
  then consider "currentShape (gsapTick ease t s) = currentShape s"
    | tw where "tw \<in> set (tweens s)" "currentShape (gsapTick ease t s) = shape tw"
    by auto
  then show "currentShape (gsapTick ease t s) \<noteq> e"
    using assms by cases simp_all
next
  show "\<forall>tw \<in> set (tweens (gsapTick ease t s)). shape tw \<noteq> e"
  proof
    fix tw
    assume "tw \<in> set (tweens (gsapTick ease t s))"
    then have "shape tw \<in> set (map shape (tweens (gsapTick ease t s)))"
      by simp
    then have "shape tw \<in> set (map shape (filter (\<lambda>tw. \<not> tweenDone t tw) (tweens s)))"
      by (simp only: gsapTick_shapes)
    then obtain tw' where "tw' \<in> set (tweens s)" "shape tw' = shape tw"
      by auto
    with assms show "shape tw \<noteq> e" by auto
  qed
qed

lemma gsapTick_explodeFree:
  assumes "explodeFree s"
  shows "explodeFree (gsapTick ease t s)"
proof -
  from assms have a: "currentShape s \<noteq> ''explode''"
    "\<forall>tw \<in> set (tweens s). shape tw \<noteq> ''explode''"
    "list_all (\<lambda>kv. fst kv \<noteq> ''explode'') (models s)"
    by (simp_all add: explodeFree_def list_all_iff)
  from gsapTick_avoids_name [OF a(1) a(2), of ease t] a(3) show ?thesis
    by (simp add: explodeFree_def list_all_iff gsapTick_frame)
qed

lemma handleAutoMorph_explodeFree:
  assumes "explodeFree s"
  shows "explodeFree (handleAutoMorph now s)"
proof (cases "autoMorph (settings s) \<and> \<not> isTransitioning s \<and>
              now - lastMorphTime s > autoMorphDuration (settings s) \<and> models s \<noteq> []")
  case True
  let ?ks = "map fst (models s)"
  let ?k = "?ks ! nat ((indexOf ?ks (currentShape s) + 1) mod int (length (models s)))"
  from True have "nat ((indexOf ?ks (currentShape s) + 1) mod int (length (models s))) < length ?ks"
    using nextIndex_in_range [of ?ks "currentShape s"] by simp
  then have "?k \<in> set ?ks" by (rule nth_mem)
  moreover have "\<forall>k \<in> set ?ks. k \<noteq> ''explode''"
    using assms by (auto simp: explodeFree_def list_all_iff)
  ultimately have "?k \<noteq> ''explode''" by blast
  from morphTo_explodeFree [OF assms this] True show ?thesis
    by (simp add: handleAutoMorph_fires explodeFree_def)
next
  case False
  with assms show ?thesis by (simp add: handleAutoMorph_skips)
qed

lemma step_explodeFree:
  assumes "explodeFree s" and "ev \<noteq> Morph ''explode''"
  shows "explodeFree (step ease s ev)"
proof (cases ev)
  case (Morph shp)
  with assms show ?thesis by (simp add: morphTo_explodeFree)
next
  case (GsapTick t)
  with assms show ?thesis by (simp add: gsapTick_explodeFree)
next
  case (Frame now)
  have "explodeFree (updateStats s)"
    using assms by (simp add: explodeFree_def updateStats_def drawn_def)
  with Frame show ?thesis by (simp add: animate_def handleAutoMorph_explodeFree)
next
  case (ToggleAutoMorph checked now)
  with assms show ?thesis
    by (simp add: explodeFree_def toggleAutoMorph_def autoMorphReset_def Let_def split: option.splits)
next
  case (SetSpeed v)
  with assms show ?thesis by (simp add: explodeFree_def)
qed

lemma run_explodeFree:
  assumes "explodeFree s" and "Morph ''explode'' \<notin> set evs"
  shows "explodeFree (run ease evs s)"
  using assms unfolding run_def
proof (induction evs arbitrary: s)
  case Nil
  then show ?case by simp
next
  case (Cons ev evs)
  then have "explodeFree (step ease s ev)" by (intro step_explodeFree) auto
  with Cons show ?case by simp
qed

lemma explode_completes_last:
  assumes "particles s = Some pts" and "tweenDuration (settings s) = Some d"
    and "gsapTime s + d \<le> t"
  shows "currentShape (gsapTick ease t (morphTo ''explode'' s)) = ''explode''"
  using assms
  by (simp add: morphTo_explode gsapTick_def drawn_def renderTween_def onComplete_def
      tweenDone_def Let_def)

lemma morphTo_starts:
  assumes "\<not> isTransitioning s" and "particles s = Some pts"
    and "shp = ''explode'' \<or> map_of (models s) shp \<noteq> None"
  shows "\<exists>tw. tweens (morphTo shp s) = tweens s @ [tw] \<and> shape tw = shp"
  using assms
  by (auto simp: morphTo_def modelOf_def getExplodePositions_def drawn_def Let_def
      split: option.splits)

lemma key_registered: "k \<in> set (map fst m) \<Longrightarrow> map_of m k \<noteq> None"
  by (induction m) auto

text \<open>
  What the flag and the guard keep up as long as no explode request arrives while the flag
  is set: the flag is set exactly while a tween is active, and at most one tween is active
  (\<open>run_singleOwner\<close> below).
\<close>

lemma morphTo_singleOwner:
  assumes "singleOwner s" and "shp = ''explode'' \<Longrightarrow> \<not> isTransitioning s"
  shows "singleOwner (morphTo shp s)"
  using assms
  by (auto simp: singleOwner_def morphTo_def getExplodePositions_def drawn_def Let_def
      split: option.splits)

lemma gsapTick_singleOwner:
  assumes "singleOwner s"
  shows "singleOwner (gsapTick ease t s)"
proof (cases "tweens s")
  case Nil
  with assms show ?thesis by (simp add: singleOwner_def gsapTick_def)
next
  case (Cons tw tws)
  with assms have "tweens s = [tw]" by (simp add: singleOwner_def)
  with assms show ?thesis
    by (simp add: singleOwner_def gsapTick_def renderTween_def onComplete_def Let_def)
qed

lemma handleAutoMorph_singleOwner:
  assumes "singleOwner s"
  shows "singleOwner (handleAutoMorph now s)"
proof (cases "autoMorph (settings s) \<and> \<not> isTransitioning s \<and>
              now - lastMorphTime s > autoMorphDuration (settings s) \<and> models s \<noteq> []")
  case True
  then have "singleOwner (morphTo shp s)" for shp
    using assms by (intro morphTo_singleOwner) simp_all
  with True show ?thesis
    by (simp add: handleAutoMorph_fires singleOwner_def)
next
  case False
  with assms show ?thesis by (simp add: handleAutoMorph_skips)
qed

lemma step_singleOwner:
  assumes "singleOwner s" and "\<not> (ev = Morph ''explode'' \<and> isTransitioning s)"
  shows "singleOwner (step ease s ev)"
proof (cases ev)
  case (Morph shp)
  with assms show ?thesis by (auto intro: morphTo_singleOwner)
next
  case (GsapTick t)
  with assms show ?thesis by (simp add: gsapTick_singleOwner)
next
  case (Frame now)
  have "singleOwner (updateStats s)"
    using assms by (simp add: singleOwner_def updateStats_def drawn_def)
  with Frame show ?thesis by (simp add: animate_def handleAutoMorph_singleOwner)
next
  case (ToggleAutoMorph checked now)
  with assms show ?thesis
    by (simp add: singleOwner_def toggleAutoMorph_def autoMorphReset_def Let_def split: option.splits)
next
  case (SetSpeed v)
  with assms show ?thesis by (simp add: singleOwner_def)
qed

lemma run_singleOwner:
  assumes "singleOwner s" and "\<not> explodeMidway ease evs s"
  shows "singleOwner (run ease evs s)"
  using assms unfolding run_def
proof (induction evs arbitrary: s)
  case Nil
  then show ?case by simp
next
  case (Cons ev evs)
  then have "singleOwner (step ease s ev)" by (intro step_singleOwner) auto
  with Cons show ?case by simp
qed

lemma handleAutoMorph_starts:
  assumes "particles s = Some pts" and "autoMorphFires now s"
  shows "\<exists>tw. tweens (handleAutoMorph now s) = tweens s @ [tw]"
proof -
  let ?ks = "map fst (models s)"
  let ?k = "?ks ! nat ((indexOf ?ks (currentShape s) + 1) mod int (length (models s)))"
  from assms have f: "autoMorph (settings s)" "\<not> isTransitioning s"
    "now - lastMorphTime s > autoMorphDuration (settings s)" "models s \<noteq> []"
    by (simp_all add: autoMorphFires_def)
  then have "nat ((indexOf ?ks (currentShape s) + 1) mod int (length (models s))) < length ?ks"
    using nextIndex_in_range [of ?ks "currentShape s"] by simp
  then have "?k \<in> set ?ks" by (rule nth_mem)
  then have "map_of (models s) ?k \<noteq> None" by (rule key_registered)
  with f assms obtain tw where "tweens (morphTo ?k s) = tweens s @ [tw]"
    using morphTo_starts [of s pts ?k] by blast
  with f show ?thesis by (simp add: handleAutoMorph_fires)
qed

lemma handleAutoMorph_lastMorphTime:
  "lastMorphTime (handleAutoMorph now s) = (if autoMorphFires now s then now else lastMorphTime s)"
proof (cases "autoMorphFires now s")
  case True
  then show ?thesis by (simp add: autoMorphFires_def handleAutoMorph_fires)
next
  case False
  then have "handleAutoMorph now s = s"
    by (intro handleAutoMorph_skips) (simp add: autoMorphFires_def)
  with False show ?thesis by simp
qed


lemma sqrt_25: "sqrt 25 = 5"
  by (rule real_sqrt_unique) simp_all

section \<open>The explode cloud\<close>

text \<open>
  Claim C5. Whatever the generator has in store, as long as every draw of
  \<^verbatim>\<open>Math.random()\<close> lies in \<open>[0, 1)\<close>: \<^verbatim>\<open>getExplodePositions\<close> returns
  \<open>particleCount\<close> positions, that is \<open>3 * particleCount\<close> coordinates, and
  coordinate \<open>i\<close> is \<open>(r\<^sub>i - 1/2) * 500\<close> for the \<open>i\<close>-th draw \<open>r\<^sub>i\<close>, hence within
  \<open>[-250, 250)\<close>. Every coordinate has a draw of its own, and the map from a draw to its
  coordinate is the same increasing affine map, so coordinates are independent and uniform
  on the cube exactly as far as the draws are independent and uniform on \<open>[0, 1)\<close>.
\<close>

theorem explode_cloud_in_cube:
  assumes "\<forall>k. 0 \<le> mathRandom s k \<and> mathRandom s k < 1"
  shows "length (fst (getExplodePositions s)) = 3 * particleCount (settings s) \<and>
         (\<forall>i < 3 * particleCount (settings s).
            fst (getExplodePositions s) ! i = (mathRandom s i - 1 / 2) * 500 \<and>
            - 250 \<le> fst (getExplodePositions s) ! i \<and>
            fst (getExplodePositions s) ! i < 250)"
proof -
  have cloud: "fst (getExplodePositions s) = randomCube (particleCount (settings s)) (mathRandom s)"
    by (simp add: getExplodePositions_def Let_def)
  have "- 250 \<le> (mathRandom s i - 1 / 2) * 500 \<and> (mathRandom s i - 1 / 2) * 500 < 250" for i
    using assms [rule_format, of i] by auto
  then show ?thesis
    by (simp add: cloud length_randomCube nth_randomCube)
qed

theorem explode_cloud_in_cube_witness:
  "length (fst (getExplodePositions (smallMorpher 2))) = 6 \<and>
   fst (getExplodePositions (smallMorpher 2)) ! 3 = 50"
  using explode_cloud_in_cube [of "smallMorpher 2"]
  by (simp add: smallMorpher_def newParticleMorpher_def sampleDraws_range)
     (simp add: sampleDraws_def)

section \<open>Requests during a transition\<close>

text \<open>
  Claim C1, against the code. The guard of \<^verbatim>\<open>morphTo\<close> reads the flag
  \<open>isTransitioning\<close>, and the flag can be clear while a tween runs. In the state
  \<open>staleFlagMorpher\<close> of the started program, explode was requested one second into the
  first tween, and the completion of the first tween has cleared the flag: the explode
  tween is the one tween active, towards its own cloud. A request for the pawn in that
  state is not dropped: it starts a second tween, and the tick that completes both leaves
  the buffer at the cloud of the pawn.
\<close>

theorem request_accepted_during_explode_tween:
  "\<not> isTransitioning staleFlagMorpher \<and>
   map shape (tweens staleFlagMorpher) = [''explode''] \<and>
   map endArray (tweens staleFlagMorpher) = [TypedArray [150, - 250, - 150]] \<and>
   map shape (tweens (morphTo ''pawn'' staleFlagMorpher)) = [''explode'', ''pawn''] \<and>
   map_option position (particles (gsapTick linearEase 6 (morphTo ''pawn'' staleFlagMorpher))) =
     Some [4, 5, 6]"
  by (simp add: staleFlagMorpher_record run_simps)

section \<open>The transition flag and the tweens\<close>

text \<open>
  Claim C2, against the code. The program calls \<^verbatim>\<open>gsap.to\<close> for an explode request
  during a transition and cancels nothing: after the request two tweens are active. When
  the first one completes, its \<^verbatim>\<open>onComplete\<close> runs: \<open>isTransitioning\<close> is false and
  the current shape is the queen while the explode tween is still active.
\<close>

theorem explode_midway_keeps_first_tween:
  "map shape (tweens (run linearEase [GsapTick 1, Morph ''explode''] bootedMorpher)) =
     [''queen'', ''explode''] \<and>
   \<not> isTransitioning (run linearEase [GsapTick 1, Morph ''explode'', GsapTick 3] bootedMorpher) \<and>
   map shape (tweens (run linearEase [GsapTick 1, Morph ''explode'', GsapTick 3] bootedMorpher)) =
     [''explode''] \<and>
   currentShape (run linearEase [GsapTick 1, Morph ''explode'', GsapTick 3] bootedMorpher) = ''queen''"
  by (simp add: bootedMorpher_record run_simps)

section \<open>The name recorded on completion\<close>

text \<open>
  Claim C3, as the code has it. \<^verbatim>\<open>onComplete\<close> stores the requested name whatever it
  is, so \<open>explode\<close> does become the current shape name, and exactly through completed
  explode requests: along any events without an explode request, from a state where
  \<open>explode\<close> is neither current, nor the target of a running tween, nor a registered
  key, the current shape name never is \<open>explode\<close>; and the tick that completes the tween
  of an explode request sets the current shape name to \<open>explode\<close>. What is never stored
  is the explode cloud: \<open>models\<close> is the same after every run.
\<close>

theorem explode_recorded_on_completion:
  "(explodeFree s \<and> Morph ''explode'' \<notin> set evs \<longrightarrow> currentShape (run ease evs s) \<noteq> ''explode'') \<and>
   (particles s = Some pts \<and> tweenDuration (settings s) = Some d \<and> gsapTime s + d \<le> t \<longrightarrow>
      currentShape (gsapTick ease t (morphTo ''explode'' s)) = ''explode'') \<and>
   models (run ease evs s) = models s"
  using run_explodeFree [of s evs ease] explode_completes_last [of s pts d t ease]
  by (simp add: run_models explodeFree_def)

theorem explode_recorded_on_completion_witness:
  "currentShape (run linearEase [GsapTick 3, Morph ''pawn'', GsapTick 6] bootedMorpher) \<noteq> ''explode'' \<and>
   currentShape (gsapTick linearEase 3 (morphTo ''explode'' bootedMorpher)) = ''explode''"
proof -
  have "explodeFree bootedMorpher \<and> Morph ''explode'' \<notin> set [GsapTick 3, Morph ''pawn'', GsapTick 6]"
    by (simp add: bootedMorpher_record explodeFree_def)
  moreover have "particles bootedMorpher = Some \<lparr>position = [- 250, - 150, - 50], aRandom = [3 / 5]\<rparr> \<and>
      tweenDuration (settings bootedMorpher) = Some (5 / 2) \<and> gsapTime bootedMorpher + 5 / 2 \<le> 3"
    by (simp add: bootedMorpher_record tweenDuration_def morphDuration_def DEFAULT_SETTINGS_def)
  ultimately show ?thesis
    using explode_recorded_on_completion
      [of bootedMorpher "[GsapTick 3, Morph ''pawn'', GsapTick 6]" linearEase
          "\<lparr>position = [- 250, - 150, - 50], aRandom = [3 / 5]\<rparr>" "5 / 2" 3]
    by blast
qed

text \<open>
  Claim C3 as stated fails on a run of the started program: the first tween completes, an
  explode request follows, and when its tween completes the current shape name is
  \<open>explode\<close>.
\<close>

theorem explode_becomes_current_shape:
  "currentShape bootedMorpher = ''queen'' \<and>
   currentShape (run linearEase [GsapTick 3, Morph ''explode'', GsapTick 6] bootedMorpher) = ''explode'' \<and>
   tweens (run linearEase [GsapTick 3, Morph ''explode'', GsapTick 6] bootedMorpher) = []"
  by (simp add: bootedMorpher_record run_simps)

section \<open>Requests without a target\<close>




section \<open>One explode cloud per request\<close>

text \<open>
  Claim C6. With the particle system in place, an explode request calls the generator
  once: the tween it adds has as its end the cloud \<^verbatim>\<open>getExplodePositions\<close> returns in
  the state of the request, which takes exactly \<open>3 * particleCount\<close> draws from
  \<^verbatim>\<open>Math.random()\<close>. The cloud is not kept in \<open>models\<close>, and a second request
  generates its own cloud from the draws that follow. A tick of the engine takes no draw
  and leaves the end array of every tween that has not completed as it is; an animation
  frame only ever adds tweens behind the running ones.
\<close>

theorem explode_target_generated_once:
  assumes "particles s = Some pts"
  shows "map endArray (tweens (morphTo ''explode'' s)) =
           map endArray (tweens s) @ [TypedArray (fst (getExplodePositions s))] \<and>
         fst (getExplodePositions s) = randomCube (particleCount (settings s)) (mathRandom s) \<and>
         mathRandom (morphTo ''explode'' s) =
           (\<lambda>k. mathRandom s (k + 3 * particleCount (settings s))) \<and>
         models (morphTo ''explode'' s) = models s \<and>
         map endArray (tweens (morphTo ''explode'' (morphTo ''explode'' s))) =
           map endArray (tweens s) @
             [TypedArray (randomCube (particleCount (settings s)) (mathRandom s)),
              TypedArray (randomCube (particleCount (settings s))
                (\<lambda>k. mathRandom s (k + 3 * particleCount (settings s))))] \<and>
         (\<forall>ease t s'. map endArray (tweens (gsapTick ease t s')) =
                         map endArray (filter (\<lambda>tw. \<not> tweenDone t tw) (tweens s')) \<and>
                       mathRandom (gsapTick ease t s') = mathRandom s') \<and>
         (\<forall>now s'. \<exists>new. tweens (animate now s') = tweens s' @ new)"
proof -
  let ?s1 = "morphTo ''explode'' s"
  have p1: "particles ?s1 = Some pts"
    using assms by (simp add: morphTo_frame)
  have cloud: "fst (getExplodePositions s) = randomCube (particleCount (settings s)) (mathRandom s)"
    by (simp add: getExplodePositions_def Let_def)
  have one: "map endArray (tweens ?s1) =
           map endArray (tweens s) @ [TypedArray (fst (getExplodePositions s))]"
    by (simp add: morphTo_explode [OF assms] cloud)
  have rnd: "mathRandom ?s1 = (\<lambda>k. mathRandom s (k + 3 * particleCount (settings s)))"
    by (simp add: morphTo_explode [OF assms] drawn_def)
  have two: "map endArray (tweens (morphTo ''explode'' ?s1)) =
           map endArray (tweens s) @
             [TypedArray (randomCube (particleCount (settings s)) (mathRandom s)),
              TypedArray (randomCube (particleCount (settings s))
                (\<lambda>k. mathRandom s (k + 3 * particleCount (settings s))))]"
    by (simp add: morphTo_explode [OF p1] one cloud rnd morphTo_frame)
  show ?thesis
    using one cloud rnd two animate_tweens_grow
    by (simp add: morphTo_frame gsapTick_endArrays gsapTick_frame)
qed

theorem explode_target_generated_once_witness:
  "map endArray (tweens (morphTo ''explode'' (morphTo ''explode'' loadedMorpher))) =
     [TypedArray [150, - 250, - 150], TypedArray [- 50, 50, 150]] \<and>
   map endArray (tweens (gsapTick linearEase 1 (morphTo ''explode'' loadedMorpher))) =
     [TypedArray [150, - 250, - 150]]"
proof -
  let ?pts = "\<lparr>position = [- 250, - 150, - 50], aRandom = [3 / 5]\<rparr>"
  have p: "particles loadedMorpher = Some ?pts"
    by (simp add: loadedMorpher_eq)
  have c1: "randomCube (particleCount (settings loadedMorpher)) (mathRandom loadedMorpher) =
              [150, - 250, - 150]"
    by (simp add: loadedMorpher_eq sampleDraws_def)
  have c2: "randomCube (particleCount (settings loadedMorpher))
              (\<lambda>k. mathRandom loadedMorpher (k + 3 * particleCount (settings loadedMorpher))) =
              [- 50, 50, 150]"
    by (simp add: loadedMorpher_eq sampleDraws_def)
  have t: "tweens loadedMorpher = []"
    by (simp add: loadedMorpher_eq)
  have f: "filter (\<lambda>tw. \<not> tweenDone 1 tw) (tweens (morphTo ''explode'' loadedMorpher)) =
             tweens (morphTo ''explode'' loadedMorpher)"
    unfolding morphTo_explode [OF p]
    by (simp add: loadedMorpher_eq drawn_def tweenDone_def tweenDuration_def
        morphDuration_def DEFAULT_SETTINGS_def)
  from explode_target_generated_once [OF p] show ?thesis
    by (simp add: c1 c2 t f)
qed

section \<open>The scheduler's tick\<close>

text \<open>
  What \<^verbatim>\<open>handleAutoMorph\<close> does in terms of the flag. With the particle system in place
  it starts a tween exactly when auto-morph is enabled, the flag is clear, more than
  \<open>autoMorphDuration\<close> has passed since \<open>lastMorphTime\<close>, and a shape is registered. It
  then requests the key at index \<open>(indexOf(currentShape) + 1) mod count\<close> of the keys in
  insertion order and sets \<open>lastMorphTime\<close> to \<open>now\<close>; in every other case the state is
  unchanged. With the shapes queen and pawn, starting idle at queen, two rounds of a frame
  past the interval and the completing tick lead to pawn and back to queen.
\<close>

lemma scheduler_tick_by_flag:
  assumes "particles s = Some pts"
  shows "(tweens (handleAutoMorph now s) \<noteq> tweens s \<longleftrightarrow>
            autoMorph (settings s) \<and> \<not> isTransitioning s \<and>
            now - lastMorphTime s > autoMorphDuration (settings s) \<and> models s \<noteq> []) \<and>
         (autoMorph (settings s) \<and> \<not> isTransitioning s \<and>
          now - lastMorphTime s > autoMorphDuration (settings s) \<and> models s \<noteq> [] \<longrightarrow>
            handleAutoMorph now s =
              (morphTo (map fst (models s) !
                 nat ((indexOf (map fst (models s)) (currentShape s) + 1) mod int (length (models s)))) s)
              \<lparr>lastMorphTime := now\<rparr> \<and>
            (\<exists>tw. tweens (handleAutoMorph now s) = tweens s @ [tw] \<and>
                  shape tw = map fst (models s) !
                    nat ((indexOf (map fst (models s)) (currentShape s) + 1) mod int (length (models s)))) \<and>
            lastMorphTime (handleAutoMorph now s) = now) \<and>
         (\<not> (autoMorph (settings s) \<and> \<not> isTransitioning s \<and>
             now - lastMorphTime s > autoMorphDuration (settings s) \<and> models s \<noteq> []) \<longrightarrow>
            handleAutoMorph now s = s) \<and>
         (models s = [(''queen'', q), (''pawn'', p)] \<and> currentShape s = ''queen'' \<and>
          \<not> isTransitioning s \<and> tweens s = [] \<and> autoMorph (settings s) \<and>
          tweenDuration (settings s) = Some d \<and>
          now - lastMorphTime s > autoMorphDuration (settings s) \<and> gsapTime s + d \<le> t \<and>
          now' - now > autoMorphDuration (settings s) \<and> t + d \<le> t' \<longrightarrow>
            currentShape (run ease [Frame now, GsapTick t] s) = ''pawn'' \<and>
            currentShape (run ease [Frame now, GsapTick t, Frame now', GsapTick t'] s) = ''queen'')"
proof -
  let ?ks = "map fst (models s)"
  let ?k = "?ks ! nat ((indexOf ?ks (currentShape s) + 1) mod int (length (models s)))"
  let ?fires = "autoMorph (settings s) \<and> \<not> isTransitioning s \<and>
            now - lastMorphTime s > autoMorphDuration (settings s) \<and> models s \<noteq> []"
  have skip: "handleAutoMorph now s = s" if "\<not> ?fires"
    using that by (rule handleAutoMorph_skips)
  have fire: "handleAutoMorph now s = (morphTo ?k s)\<lparr>lastMorphTime := now\<rparr> \<and>
            (\<exists>tw. tweens (handleAutoMorph now s) = tweens s @ [tw] \<and> shape tw = ?k) \<and>
            lastMorphTime (handleAutoMorph now s) = now" if f: "?fires"
  proof -
    from f have "nat ((indexOf ?ks (currentShape s) + 1) mod int (length (models s))) < length ?ks"
      using nextIndex_in_range [of ?ks "currentShape s"] by simp
    then have "?k \<in> set ?ks" by (rule nth_mem)
    then have "map_of (models s) ?k \<noteq> None" by (rule key_registered)
    with f assms obtain tw where "tweens (morphTo ?k s) = tweens s @ [tw]" "shape tw = ?k"
      using morphTo_starts [of s pts ?k] by blast
    with f show ?thesis by (simp add: handleAutoMorph_fires)
  qed
  have iff: "tweens (handleAutoMorph now s) \<noteq> tweens s \<longleftrightarrow> ?fires"
  proof (cases ?fires)
    case True
    with fire show ?thesis by auto
  next
    case False
    with skip show ?thesis by simp
  qed
  have cycle: "currentShape (run ease [Frame now, GsapTick t] s) = ''pawn'' \<and>
            currentShape (run ease [Frame now, GsapTick t, Frame now', GsapTick t'] s) = ''queen''"
    if "models s = [(''queen'', q), (''pawn'', p)]" "currentShape s = ''queen''"
       "\<not> isTransitioning s" "tweens s = []" "autoMorph (settings s)"
       "tweenDuration (settings s) = Some d"
       "now - lastMorphTime s > autoMorphDuration (settings s)" "gsapTime s + d \<le> t"
       "now' - now > autoMorphDuration (settings s)" "t + d \<le> t'"
    using that assms
    by (simp add: run_def animate_def updateStats_def drawn_def handleAutoMorph_def morphTo_def
        modelOf_def gsapTick_def renderTween_def onComplete_def tweenDone_def Let_def)
  from skip fire iff cycle show ?thesis by blast
qed

lemma handleAutoMorph_during_explode_tween:
  "map shape (tweens (handleAutoMorph 6000 staleFlagMorpher)) = [''explode'', ''pawn''] \<and>
   lastMorphTime (handleAutoMorph 6000 staleFlagMorpher) = 6000"
  by (simp add: staleFlagMorpher_record run_simps)

text \<open>
  Claim C7, against the code. The scheduler reads the flag \<open>isTransitioning\<close>, and the
  flag can be clear while a tween runs. In the state \<open>staleFlagMorpher\<close> of the started
  program the explode tween is active and the flag is clear; the animation frame at 6000,
  more than the interval after \<open>lastMorphTime = 0\<close>, issues a morph to the pawn in the
  middle of that transition and sets \<open>lastMorphTime\<close>.
\<close>

theorem auto_morph_issued_during_explode_tween:
  "autoMorph (settings staleFlagMorpher) \<and> \<not> isTransitioning staleFlagMorpher \<and>
   map shape (tweens staleFlagMorpher) = [''explode''] \<and>
   map shape (tweens (animate 6000 staleFlagMorpher)) = [''explode'', ''pawn''] \<and>
   lastMorphTime (animate 6000 staleFlagMorpher) = 6000 \<and>
   map shape (tweens (step linearEase staleFlagMorpher (Frame 6000))) = [''explode'', ''pawn'']"
  by (simp add: staleFlagMorpher_record run_simps)

section \<open>The timestamp of the scheduler\<close>

text \<open>
  Claim C8, as the code has it. With the particle system in place, \<open>lastMorphTime\<close>
  changes in two situations only, and then becomes \<open>now\<close>: when the auto-morph checkbox
  is switched on, and in the frame in which the scheduler issues its request. A manual
  request, an engine tick (and so the completion of any morph), switching auto-morph off
  and the speed slider leave it as it is. After switching auto-morph on at \<open>now0\<close>, a
  frame starts an automatic morph exactly when the morpher is idle, a shape is registered
  and more than the interval has passed since \<open>now0\<close>.
\<close>

theorem lastMorphTime_set_on_toggle_and_issue:
  assumes "particles s = Some pts"
  shows "lastMorphTime (step ease s ev) =
           (case ev of
              Morph shp \<Rightarrow> lastMorphTime s
            | GsapTick t \<Rightarrow> lastMorphTime s
            | Frame now \<Rightarrow> if autoMorphFires now s then now else lastMorphTime s
            | ToggleAutoMorph checked now \<Rightarrow> if checked then now else lastMorphTime s
            | SetSpeed v \<Rightarrow> lastMorphTime s) \<and>
         (tweens (animate now (toggleAutoMorph True now0 s)) \<noteq> tweens s \<longleftrightarrow>
            \<not> isTransitioning s \<and> now - now0 > autoMorphDuration (settings s) \<and> models s \<noteq> [])"
proof -
  have one: "lastMorphTime (step ease s ev) =
           (case ev of
              Morph shp \<Rightarrow> lastMorphTime s
            | GsapTick t \<Rightarrow> lastMorphTime s
            | Frame now \<Rightarrow> if autoMorphFires now s then now else lastMorphTime s
            | ToggleAutoMorph checked now \<Rightarrow> if checked then now else lastMorphTime s
            | SetSpeed v \<Rightarrow> lastMorphTime s)"
  proof (cases ev)
    case (Frame now)
    have "autoMorphFires now (updateStats s) = autoMorphFires now s"
      by (simp add: autoMorphFires_def updateStats_def drawn_def)
    with Frame show ?thesis
      by (simp add: animate_def handleAutoMorph_lastMorphTime) (simp add: updateStats_def drawn_def)
  next
    case (ToggleAutoMorph checked now)
    with assms show ?thesis
      by (simp add: toggleAutoMorph_def autoMorphReset_def Let_def)
  qed (simp_all add: morphTo_frame gsapTick_frame)
  let ?s1 = "updateStats (toggleAutoMorph True now0 s)"
  have s1: "particles ?s1 = Some pts" "tweens ?s1 = tweens s"
    "autoMorphFires now ?s1 \<longleftrightarrow>
       \<not> isTransitioning s \<and> now - now0 > autoMorphDuration (settings s) \<and> models s \<noteq> []"
    using assms
    by (simp_all add: updateStats_def drawn_def toggleAutoMorph_def autoMorphReset_def Let_def
        autoMorphFires_def)
  have two: "tweens (animate now (toggleAutoMorph True now0 s)) \<noteq> tweens s \<longleftrightarrow>
            \<not> isTransitioning s \<and> now - now0 > autoMorphDuration (settings s) \<and> models s \<noteq> []"
  proof (cases "autoMorphFires now ?s1")
    case True
    from handleAutoMorph_starts [OF s1(1) True] s1 True show ?thesis
      by (auto simp: animate_def)
  next
    case False
    then have "handleAutoMorph now ?s1 = ?s1"
      by (intro handleAutoMorph_skips) (simp add: autoMorphFires_def)
    with False s1 show ?thesis by (simp add: animate_def)
  qed
  from one two show ?thesis by simp
qed

theorem lastMorphTime_set_on_toggle_and_issue_witness:
  "lastMorphTime (step linearEase bootedMorpher (ToggleAutoMorph True 100)) = 100 \<and>
   lastMorphTime (step linearEase bootedMorpher (GsapTick 3)) = 0 \<and>
   lastMorphTime (step linearEase loadedMorpher (Frame 6000)) = 6000"
proof -
  let ?pts = "\<lparr>position = [- 250, - 150, - 50], aRandom = [3 / 5]\<rparr>"
  have p: "particles bootedMorpher = Some ?pts" "particles loadedMorpher = Some ?pts"
    by (simp_all add: bootedMorpher_record loadedMorpher_eq)
  have f: "autoMorphFires 6000 loadedMorpher" "lastMorphTime bootedMorpher = 0"
    by (simp_all add: autoMorphFires_def loadedMorpher_eq bootedMorpher_record DEFAULT_SETTINGS_def)
  from lastMorphTime_set_on_toggle_and_issue [OF p(1), of linearEase "ToggleAutoMorph True 100"]
       lastMorphTime_set_on_toggle_and_issue [OF p(1), of linearEase "GsapTick 3"]
       lastMorphTime_set_on_toggle_and_issue [OF p(2), of linearEase "Frame 6000"] f
  show ?thesis by simp
qed

text \<open>
  Claim C8 as stated fails on a run of the started program: auto-morph is switched off and
  on again at 100, the first tween completes, a manual request for the pawn completes in
  the engine tick at 6 seconds, and \<open>lastMorphTime\<close> still is 100; the frame at 6100
  then issues the next automatic morph at once.
\<close>

theorem completion_keeps_lastMorphTime:
  "lastMorphTime (run linearEase
      [ToggleAutoMorph False 50, ToggleAutoMorph True 100, GsapTick 3, Morph ''pawn'', GsapTick 6]
      bootedMorpher) = 100 \<and>
   currentShape (run linearEase
      [ToggleAutoMorph False 50, ToggleAutoMorph True 100, GsapTick 3, Morph ''pawn'', GsapTick 6]
      bootedMorpher) = ''pawn'' \<and>
   tweens (run linearEase
      [ToggleAutoMorph False 50, ToggleAutoMorph True 100, GsapTick 3, Morph ''pawn'', GsapTick 6]
      bootedMorpher) = [] \<and>
   map shape (tweens (run linearEase
      [ToggleAutoMorph False 50, ToggleAutoMorph True 100, GsapTick 3, Morph ''pawn'', GsapTick 6,
       Frame 6100] bootedMorpher)) = [''queen'']"
  by (simp add: bootedMorpher_record run_simps)

section \<open>A current shape that is not registered\<close>

text \<open>
  Claim C10. When the scheduler fires while the current shape name is not a key of
  \<open>models\<close> (as after a completed explode request), \<open>indexOf\<close> is \<open>-1\<close> and the
  request goes to the first registered shape: a tween with the name of the first key is
  added, towards the cloud of that key when the key is not \<open>explode\<close> (as the keys queen
  and pawn are not), and the flag is set.
\<close>

theorem unknown_current_shape_restarts_cycle:
  assumes "autoMorph (settings s)" and "\<not> isTransitioning s"
    and "now - lastMorphTime s > autoMorphDuration (settings s)"
    and "models s = (name, cloud) # rest"
    and "currentShape s \<notin> set (map fst (models s))"
    and "particles s = Some pts"
  shows "indexOf (map fst (models s)) (currentShape s) = - 1 \<and>
         handleAutoMorph now s = (morphTo name s)\<lparr>lastMorphTime := now\<rparr> \<and>
         map shape (tweens (handleAutoMorph now s)) = map shape (tweens s) @ [name] \<and>
         (name \<noteq> ''explode'' \<longrightarrow>
            map endArray (tweens (handleAutoMorph now s)) =
              map endArray (tweens s) @ [TypedArray cloud]) \<and>
         isTransitioning (handleAutoMorph now s)"
proof -
  have idx: "indexOf (map fst (models s)) (currentShape s) = - 1"
    using assms by (intro indexOf_absent) simp
  have "models s \<noteq> []"
    using assms by simp
  from handleAutoMorph_fires [OF assms(1) assms(2) assms(3) this]
  have "handleAutoMorph now s =
          (morphTo (map fst (models s) ! nat ((- 1 + 1) mod int (length (models s)))) s)
          \<lparr>lastMorphTime := now\<rparr>"
    by (simp only: idx)
  moreover have "map fst (models s) ! nat ((- 1 + 1) mod int (length (models s))) = name"
    by (simp add: assms(4))
  ultimately have fires: "handleAutoMorph now s = (morphTo name s)\<lparr>lastMorphTime := now\<rparr>"
    by simp
  have reg: "map_of (models s) name = Some cloud"
    using assms by simp
  have tw: "map shape (tweens (morphTo name s)) = map shape (tweens s) @ [name] \<and>
            (name \<noteq> ''explode'' \<longrightarrow>
               map endArray (tweens (morphTo name s)) = map endArray (tweens s) @ [TypedArray cloud]) \<and>
            isTransitioning (morphTo name s)"
  proof (cases "name = ''explode''")
    case True
    with morphTo_explode [OF assms(6)] show ?thesis by simp
  next
    case False
    from morphTo_registered [OF assms(2) False assms(6) reg] False show ?thesis by simp
  qed
  from idx fires tw show ?thesis by simp
qed

theorem unknown_current_shape_restarts_cycle_witness:
  "currentShape (run linearEase [GsapTick 3, Morph ''explode'', GsapTick 6] bootedMorpher) = ''explode'' \<and>
   indexOf [''queen'', ''pawn''] ''explode'' = - 1 \<and>
   map shape (tweens (handleAutoMorph 6000
      (run linearEase [GsapTick 3, Morph ''explode'', GsapTick 6] bootedMorpher))) = [''queen'']"
proof -
  let ?s = "run linearEase [GsapTick 3, Morph ''explode'', GsapTick 6] bootedMorpher"
  have h: "autoMorph (settings ?s)" "\<not> isTransitioning ?s"
    "6000 - lastMorphTime ?s > autoMorphDuration (settings ?s)"
    "models ?s = (''queen'', [1, 2, 3]) # [(''pawn'', [4, 5, 6])]"
    by (simp_all add: bootedMorpher_record run_simps)
  have c: "currentShape ?s = ''explode''"
    by (simp add: bootedMorpher_record run_simps)
  then have n: "currentShape ?s \<notin> set (map fst (models ?s))"
    by (simp add: h(4))
  have p: "particles ?s = Some \<lparr>position = [150, - 250, - 150], aRandom = [3 / 5]\<rparr>"
    by (simp add: bootedMorpher_record run_simps)
  have t: "tweens ?s = []"
    by (simp add: bootedMorpher_record run_simps)
  from unknown_current_shape_restarts_cycle [OF h n p]
  have tw: "map shape (tweens (handleAutoMorph 6000 ?s)) = map shape (tweens ?s) @ [''queen'']"
    by blast
  show ?thesis
    unfolding tw t c by simp
qed

section \<open>The interaction field away from the pointer\<close>

lemma smoothstep_beyond_edge:
  assumes "0 < edge0" and "edge0 \<le> x"
  shows "smoothstep edge0 0 x = Some 0"
proof -
  have "(x - edge0) / (0 - edge0) \<le> 0"
    using assms by (simp add: divide_nonneg_neg)
  then have "clamp (fdiv (x - edge0) (0 - edge0)) 0 1 = Some 0"
    using assms by (simp add: clamp_def fdiv_def)
  then show ?thesis by (simp add: smoothstep_def)
qed

lemma no_falloff_no_displacement:
  assumes "falloffAt u aRnd (vdistance worldPosition (uMouse u)) = Some 0"
  shows "vertexWorldPosition u aRnd pos worldPosition = Some worldPosition \<and>
         displacementOf u aRnd pos worldPosition = Some (0, 0, 0)"
  using assms
  by (cases worldPosition) (simp add: displacementOf_def vertexWorldPosition_def Let_def vsub_def)

lemma displaced_at_full_falloff:
  assumes "falloffAt (uniformsWithRadius r) 0 5 = Some 1"
  shows "displacementOf (uniformsWithRadius r) 0 (0, 0, 0) (0, 0, 0) \<noteq> None \<and>
         displacementOf (uniformsWithRadius r) 0 (0, 0, 0) (0, 0, 0) \<noteq> Some (0, 0, 0)"
proof -
  have d: "vdistance (0, 0, 0) (5, 0, 0) = 5"
    by (simp add: vdistance_def vlength_def vsub_def sqrt_25)
  have repel: "vnormalize (vsub (0, 0, 0) (5, 0, 0)) = Some (- 1, 0, 0)"
    by (simp add: vnormalize_def vlength_def vsub_def vscale_def sqrt_25)
  define L where "L = vlength (vadd (vscale (- 1, 0, 0) (3 / 10)) (vscale (0, 1, 0) (7 / 10)))"
  have "L = sqrt (9 / 100 + 49 / 100)"
    by (simp add: L_def vlength_def vadd_def vscale_def)
  then have L: "0 < L" by simp
  then have final: "vnormalize (vadd (vscale (- 1, 0, 0) (3 / 10)) (vscale (0, 1, 0) (7 / 10))) =
                      Some (- (3 / 10) * (1 / L), 7 / 10 * (1 / L), 0)"
    by (simp add: vnormalize_def L_def [symmetric]) (simp add: vadd_def vscale_def)
  have "vertexWorldPosition (uniformsWithRadius r) 0 (0, 0, 0) (0, 0, 0) =
          Some (vadd (0, 0, 0) (vscale (- (3 / 10) * (1 / L), 7 / 10 * (1 / L), 0) 8))"
    using assms
    by (simp add: vertexWorldPosition_def Let_def uniformsWithRadius_def d repel final)
  then have "displacementOf (uniformsWithRadius r) 0 (0, 0, 0) (0, 0, 0) =
          Some (- (3 / 10) * (1 / L) * 8, 7 / 10 * (1 / L) * 8, 0)"
    by (simp add: displacementOf_def vadd_def vsub_def vscale_def)
  with L show ?thesis by simp
qed

text \<open>
  Claim C9, as the code has it, over the reals. For a positive radius and \<^verbatim>\<open>aRandom\<close>
  in \<open>[0, 1]\<close>, a vertex whose transformed position is farther than \<open>uRadius * 1.7\<close>
  from \<^verbatim>\<open>uMouse\<close> has \<open>falloff = 0\<close>, keeps its transformed position, and so has
  displacement zero; and whenever \<open>falloff\<close> is 0, whatever the inputs, the position is
  kept and the displacement is the zero vector.
\<close>

theorem interaction_field_zero_outside_radius:
  "(0 < uRadius u \<and> 0 \<le> aRnd \<and> aRnd \<le> 1 \<and>
    vdistance worldPosition (uMouse u) > uRadius u * 1.7 \<longrightarrow>
      falloffAt u aRnd (vdistance worldPosition (uMouse u)) = Some 0 \<and>
      vertexWorldPosition u aRnd pos worldPosition = Some worldPosition \<and>
      displacementOf u aRnd pos worldPosition = Some (0, 0, 0)) \<and>
   (falloffAt u aRnd (vdistance worldPosition (uMouse u)) = Some 0 \<longrightarrow>
      vertexWorldPosition u aRnd pos worldPosition = Some worldPosition \<and>
      displacementOf u aRnd pos worldPosition = Some (0, 0, 0))"
proof -
  have "falloffAt u aRnd (vdistance worldPosition (uMouse u)) = Some 0"
    if r: "0 < uRadius u" and n: "0 \<le> aRnd" "aRnd \<le> 1"
      and far: "vdistance worldPosition (uMouse u) > uRadius u * 1.7"
  proof -
    have "1.2 + aRnd * 0.5 \<le> (1.7 :: real)" using n by simp
    then have "uRadius u * (1.2 + aRnd * 0.5) \<le> uRadius u * 1.7"
      using r by (intro mult_left_mono) simp_all
    moreover have "0 < uRadius u * (1.2 + aRnd * 0.5)"
      using r n by (intro mult_pos_pos) simp_all
    ultimately show ?thesis
      using far unfolding falloffAt_def by (intro smoothstep_beyond_edge) simp_all
  qed
  with no_falloff_no_displacement [of u aRnd worldPosition pos] show ?thesis by blast
qed

theorem interaction_field_zero_outside_radius_witness:
  "vertexWorldPosition (uniformsWithRadius 2) (3 / 5) (0, 0, 0) (0, 0, 0) = Some (0, 0, 0) \<and>
   displacementOf (uniformsWithRadius 2) (3 / 5) (0, 0, 0) (0, 0, 0) = Some (0, 0, 0)"
proof -
  have d: "vdistance (0, 0, 0) (uMouse (uniformsWithRadius 2)) = 5"
    by (simp add: vdistance_def vlength_def vsub_def uniformsWithRadius_def sqrt_25)
  have "0 < uRadius (uniformsWithRadius 2) \<and> (0::real) \<le> 3 / 5 \<and> (3::real) / 5 \<le> 1 \<and>
        vdistance (0, 0, 0) (uMouse (uniformsWithRadius 2)) > uRadius (uniformsWithRadius 2) * 1.7"
    by (simp add: d) (simp add: uniformsWithRadius_def)
  with interaction_field_zero_outside_radius [of "uniformsWithRadius 2" "3 / 5" "(0, 0, 0)" "(0, 0, 0)"]
  show ?thesis by blast
qed

text \<open>
  Claim C9 as stated fails for a radius that is not positive. With \<^verbatim>\<open>uRadius = 0\<close> the
  division in \<open>smoothstep\<close> is by zero and gives \<open>falloff = 1\<close> for every vertex away
  from the pointer; with \<^verbatim>\<open>uRadius = -1\<close> the edges are in increasing order and
  \<open>falloff\<close> is 1 from distance 0 on. In both cases the vertex at the origin, at distance 5
  from the pointer and so beyond \<open>uRadius * 1.7\<close>, is displaced.
\<close>

theorem far_particle_displaced_without_radius:
  "vdistance (0, 0, 0) (uMouse (uniformsWithRadius 0)) > uRadius (uniformsWithRadius 0) * 1.7 \<and>
   falloffAt (uniformsWithRadius 0) 0 (vdistance (0, 0, 0) (uMouse (uniformsWithRadius 0))) = Some 1 \<and>
   displacementOf (uniformsWithRadius 0) 0 (0, 0, 0) (0, 0, 0) \<noteq> Some (0, 0, 0) \<and>
   vdistance (0, 0, 0) (uMouse (uniformsWithRadius (- 1))) > uRadius (uniformsWithRadius (- 1)) * 1.7 \<and>
   falloffAt (uniformsWithRadius (- 1)) 0 (vdistance (0, 0, 0) (uMouse (uniformsWithRadius (- 1)))) = Some 1 \<and>
   displacementOf (uniformsWithRadius (- 1)) 0 (0, 0, 0) (0, 0, 0) \<noteq> Some (0, 0, 0)"
proof -
  have d: "vdistance (0, 0, 0) (uMouse (uniformsWithRadius r)) = 5" for r
    by (simp add: vdistance_def vlength_def vsub_def uniformsWithRadius_def sqrt_25)
  have f0: "falloffAt (uniformsWithRadius 0) 0 5 = Some 1"
    by (simp add: falloffAt_def smoothstep_def clamp_def fdiv_def uniformsWithRadius_def)
  have f1: "falloffAt (uniformsWithRadius (- 1)) 0 5 = Some 1"
    by (simp add: falloffAt_def smoothstep_def clamp_def fdiv_def uniformsWithRadius_def)
  from displaced_at_full_falloff [OF f0] displaced_at_full_falloff [OF f1] f0 f1 show ?thesis
    by (simp add: d) (simp add: uniformsWithRadius_def)
qed

end
